theory Spec2Isabelle
  imports Complex_Main "HOL-Library.Log_Nat"
begin

section \<open>Wallet Saver: the allocation and ledger engine\<close>

text \<open>
  A shallow embedding of the engine functions of the \<open>WalletSaver\<close> component
  (\<open>distributeIncome\<close>, \<open>addTransaction\<close>, \<open>createGoal\<close>, \<open>exportData\<close>,
  \<open>importData\<close>). The React state (\<open>income\<close>, \<open>categories\<close>, \<open>transactions\<close>,
  \<open>goals\<close>) is one record that every operation takes and returns; a call of a
  setter is an update of the field.
\<close>

subsection \<open>Numbers\<close>

text \<open>
  A JavaScript number is an IEEE 754 binary64 value: a finite double, one of the
  two infinities, or \<open>NaN\<close>. A finite double is carried as the real number it
  stands for; the two zeros are one value, since the engine never divides by a
  zero and \<open>===\<close> does not tell them apart.

  The result of an arithmetic operation on finite operands is the exact result
  rounded to the nearest double, a tie to the even significand. \<open>expo x\<close> is the
  binary exponent of a positive \<open>x\<close>, \<open>quantum x\<close> the distance between the
  doubles around \<open>x\<close> (53 significant bits, the least exponent \<open>-1022\<close>), and
  \<open>rnd x\<close> the nearest multiple of \<open>quantum x\<close>. A rounded result of magnitude
  \<open>2 ^ 1024\<close> or more is an infinity.
\<close>

definition expo :: "real \<Rightarrow> int" where
  "expo x = (if 1 \<le> x then bitlen \<lfloor>x\<rfloor> - 1 else - bitlen (\<lceil>1 / x\<rceil> - 1))"

definition round_even :: "real \<Rightarrow> int" where
  "round_even z =
     (let f = \<lfloor>z\<rfloor>; d = z - of_int f in
      if d < 1 / 2 then f else if 1 / 2 < d then f + 1 else if even f then f else f + 1)"

definition quantum :: "real \<Rightarrow> real" where
  "quantum x = 2 powi (max (expo \<bar>x\<bar>) (- 1022) - 52)"

definition rnd :: "real \<Rightarrow> real" where
  "rnd x = (if x = 0 then 0 else quantum x * of_int (round_even (x / quantum x)))"

text \<open>The reals that are doubles.\<close>

definition is_double :: "real \<Rightarrow> bool" where
  "is_double x = (rnd x = x \<and> \<bar>x\<bar> < 2 ^ 1024)"

datatype jsnum = Num real | PInf | NInf | NaN

definition js_round :: "real \<Rightarrow> jsnum" where
  "js_round x =
     (let r = rnd x in if 2 ^ 1024 \<le> r then PInf else if r \<le> - (2 ^ 1024) then NInf else Num r)"

text \<open>The sign of a number that is not \<open>NaN\<close>.\<close>

fun is_negative :: "jsnum \<Rightarrow> bool" where
  "is_negative (Num a) = (a < 0)"
| "is_negative NInf = True"
| "is_negative _ = False"

fun is_finite :: "jsnum \<Rightarrow> bool" where
  "is_finite (Num a) = True"
| "is_finite _ = False"

text \<open>\<open>Number(x) || 0\<close>: the falsy numbers \<open>NaN\<close> and \<open>0\<close> become \<open>0\<close>.\<close>

fun or0 :: "jsnum \<Rightarrow> jsnum" where
  "or0 NaN = Num 0"
| "or0 (Num r) = (if r = 0 then Num 0 else Num r)"
| "or0 PInf = PInf"
| "or0 NInf = NInf"

fun js_uminus :: "jsnum \<Rightarrow> jsnum" where
  "js_uminus (Num a) = Num (- a)"
| "js_uminus PInf = NInf"
| "js_uminus NInf = PInf"
| "js_uminus NaN = NaN"

fun js_plus :: "jsnum \<Rightarrow> jsnum \<Rightarrow> jsnum" where
  "js_plus (Num a) (Num b) = js_round (a + b)"
| "js_plus NaN _ = NaN"
| "js_plus _ NaN = NaN"
| "js_plus PInf NInf = NaN"
| "js_plus NInf PInf = NaN"
| "js_plus PInf _ = PInf"
| "js_plus _ PInf = PInf"
| "js_plus NInf _ = NInf"
| "js_plus _ NInf = NInf"

definition js_minus :: "jsnum \<Rightarrow> jsnum \<Rightarrow> jsnum" where
  "js_minus a b = js_plus a (js_uminus b)"

fun js_times :: "jsnum \<Rightarrow> jsnum \<Rightarrow> jsnum" where
  "js_times (Num a) (Num b) = js_round (a * b)"
| "js_times NaN _ = NaN"
| "js_times _ NaN = NaN"
| "js_times a b =
     (if a = Num 0 \<or> b = Num 0 then NaN
      else if is_negative a = is_negative b then PInf else NInf)"

text \<open>
  Division. The engine's divisors are \<open>categories.length\<close> behind the emptiness
  test and \<open>Math.max(tp, 1)\<close>, so it never divides by a zero; the zero divisor
  is taken as a positive zero.
\<close>

fun js_divide :: "jsnum \<Rightarrow> jsnum \<Rightarrow> jsnum" where
  "js_divide (Num a) (Num b) =
     (if b = 0 then (if a = 0 then NaN else if 0 < a then PInf else NInf)
      else js_round (a / b))"
| "js_divide NaN _ = NaN"
| "js_divide _ NaN = NaN"
| "js_divide (Num a) _ = Num 0"
| "js_divide a (Num b) = (if is_negative a = (b < 0) then PInf else NInf)"
| "js_divide _ _ = NaN"

text \<open>\<open>a > b\<close>, \<open>a >= b\<close> and \<open>a === b\<close> on numbers.\<close>

fun js_greater :: "jsnum \<Rightarrow> jsnum \<Rightarrow> bool" where
  "js_greater (Num a) (Num b) = (b < a)"
| "js_greater NaN _ = False"
| "js_greater _ NaN = False"
| "js_greater PInf b = (b \<noteq> PInf)"
| "js_greater NInf _ = False"
| "js_greater (Num a) b = (b = NInf)"

fun js_eq :: "jsnum \<Rightarrow> jsnum \<Rightarrow> bool" where
  "js_eq NaN _ = False"
| "js_eq _ NaN = False"
| "js_eq a b = (a = b)"

definition js_ge :: "jsnum \<Rightarrow> jsnum \<Rightarrow> bool" where
  "js_ge a b = (js_greater a b \<or> js_eq a b)"

fun Math_abs :: "jsnum \<Rightarrow> jsnum" where
  "Math_abs (Num a) = Num \<bar>a\<bar>"
| "Math_abs PInf = PInf"
| "Math_abs NInf = PInf"
| "Math_abs NaN = NaN"

fun Math_max :: "jsnum \<Rightarrow> jsnum \<Rightarrow> jsnum" where
  "Math_max NaN _ = NaN"
| "Math_max _ NaN = NaN"
| "Math_max a b = (if js_greater a b then a else b)"

fun Math_min :: "jsnum \<Rightarrow> jsnum \<Rightarrow> jsnum" where
  "Math_min NaN _ = NaN"
| "Math_min _ NaN = NaN"
| "Math_min a b = (if js_greater a b then b else a)"

text \<open>
  \<open>Math.floor\<close> and \<open>Math.round\<close> are exact on a double: the integer they
  return is a double again. \<open>Math.round\<close> rounds to the nearest integer, a tie
  towards \<open>+\<infinity>\<close>.
\<close>

fun Math_floor :: "jsnum \<Rightarrow> jsnum" where
  "Math_floor (Num a) = Num (of_int \<lfloor>a\<rfloor>)"
| "Math_floor a = a"

fun Math_round :: "jsnum \<Rightarrow> jsnum" where
  "Math_round (Num a) = Num (of_int \<lfloor>a + 1 / 2\<rfloor>)"
| "Math_round a = a"

subsection \<open>Data model\<close>

text \<open>
  An identifier handed to an operation is a string or absent (\<open>null\<close>,
  \<open>undefined\<close>); it is truthy when it is a non-empty string. A numeric field
  holds a number; a state with a value of another type in such a field is outside
  the model.
\<close>

fun truthy :: "string option \<Rightarrow> bool" where
  "truthy None = False"
| "truthy (Some s) = (s \<noteq> [])"

record category =
  cat_id :: string
  cat_name :: string
  percent :: jsnum
  balance :: jsnum

record transaction =
  tx_id :: string
  title :: string
  amount :: jsnum
  categoryId :: "string option"
  date :: string

record goal =
  goal_id :: string
  goal_name :: string
  targetAmount :: jsnum
  saved :: jsnum

record state =
  income :: jsnum
  categories :: "category list"
  transactions :: "transaction list"
  goals :: "goal list"

subsection \<open>Allocation engine\<close>

text \<open>\<open>categories.reduce((s, c) => s + (Number(c.percent) || 0), 0)\<close>\<close>

definition totalPercent :: "category list \<Rightarrow> jsnum" where
  "totalPercent cs = foldl (\<lambda>s c. js_plus s (or0 (percent c))) (Num 0) cs"

definition distributeIncome :: "state \<Rightarrow> state" where
  "distributeIncome st =
     (let tp = totalPercent (categories st) in
      if length (categories st) = 0 then st
      else if js_eq tp (Num 0) then
        (let equal = Math_floor (js_divide (income st) (Num (real (length (categories st)))))
         in st\<lparr>categories := map (\<lambda>c. c\<lparr>balance := equal\<rparr>) (categories st)\<rparr>)
      else
        st\<lparr>categories :=
             map (\<lambda>c. let p = or0 (percent c);
                          allocated = Math_round (js_times (js_divide p (Math_max tp (Num 1))) (income st))
                      in c\<lparr>balance := allocated\<rparr>)
                 (categories st)\<rparr>)"

subsection \<open>Ledger\<close>

text \<open>
  The \<open>type\<close> handed to \<open>addTransaction\<close>: left out (\<open>undefined\<close>), \<open>null\<close>,
  or a string. The default \<open>"expense"\<close> of the parameter replaces \<open>undefined\<close>
  only.
\<close>

datatype type_arg = Undefined | Null | Str string

text \<open>
  \<open>new_id\<close> is the identifier \<open>uid("tx")\<close> returns and \<open>now\<close> the timestamp
  \<open>new Date().toISOString()\<close>.
\<close>

definition addTransaction ::
  "string \<Rightarrow> string \<Rightarrow> string \<Rightarrow> jsnum \<Rightarrow> string option \<Rightarrow> type_arg \<Rightarrow> state \<Rightarrow> state" where
  "addTransaction new_id now ttl amnt catId type st =
     (let ty = (case type of Undefined \<Rightarrow> Str ''expense'' | t \<Rightarrow> t);
          amt = or0 amnt;
          signed = (if ty = Str ''expense'' then js_uminus (Math_abs amt) else Math_abs amt);
          tx = \<lparr>tx_id = new_id, title = ttl, amount = signed, categoryId = catId, date = now\<rparr>;
          st1 = st\<lparr>transactions := tx # transactions st\<rparr>
      in if truthy catId then
           st1\<lparr>categories :=
                 map (\<lambda>c. if Some (cat_id c) = catId
                           then c\<lparr>balance := Math_max (Num 0) (js_plus (balance c) signed)\<rparr>
                           else c)
                     (categories st1)\<rparr>
         else st1)"

subsection \<open>Goal transfer\<close>

text \<open>
  \<open>new_id\<close> is the identifier \<open>uid("g")\<close> returns. The category is looked up
  with \<open>find\<close> (the first match) in the categories of the state the operation
  starts from.
\<close>

definition createGoal :: "string \<Rightarrow> string \<Rightarrow> jsnum \<Rightarrow> string option \<Rightarrow> state \<Rightarrow> state" where
  "createGoal new_id nm target fromCategoryId st =
     (let g = \<lparr>goal_id = new_id, goal_name = nm, targetAmount = or0 target, saved = Num 0\<rparr>;
          st1 = st\<lparr>goals := goals st @ [g]\<rparr>
      in if truthy fromCategoryId then
           (case find (\<lambda>cc. Some (cat_id cc) = fromCategoryId) (categories st) of
              None \<Rightarrow> st1
            | Some c \<Rightarrow>
                if js_greater (balance c) (Num 0) then
                  (let transfer = Math_min (balance c) (targetAmount g) in
                   st1\<lparr>categories :=
                         map (\<lambda>cc. if Some (cat_id cc) = fromCategoryId
                                    then cc\<lparr>balance := js_minus (balance cc) transfer\<rparr>
                                    else cc)
                             (categories st1),
                       goals :=
                         map (\<lambda>gg. if goal_id gg = goal_id g
                                    then gg\<lparr>saved := js_plus (saved gg) transfer\<rparr>
                                    else gg)
                             (goals st1)\<rparr>)
                else st1)
         else st1)"

subsection \<open>Snapshot\<close>

text \<open>
  The result of \<open>JSON.parse\<close>, as far as \<open>importData\<close> reads it: \<open>null\<close>, on
  which reading a property throws, or a value with the four properties, each of
  them absent (or \<open>null\<close>) or present.
\<close>

record snapshot =
  snap_income :: "jsnum option"
  snap_categories :: "category list option"
  snap_transactions :: "transaction list option"
  snap_goals :: "goal list option"

datatype parsed = ParsedNull | Parsed snapshot

text \<open>The object \<open>{ income, categories, transactions, goals }\<close>.\<close>

definition payload :: "state \<Rightarrow> snapshot" where
  "payload st =
     \<lparr>snap_income = Some (income st), snap_categories = Some (categories st),
      snap_transactions = Some (transactions st), snap_goals = Some (goals st)\<rparr>"


text \<open>\<open>a ?? b\<close>\<close>

fun nullish :: "'a option \<Rightarrow> 'a \<Rightarrow> 'a" where
  "nullish None b = b"
| "nullish (Some a) b = a"

text \<open>
  The handler \<open>reader.onload\<close> of \<open>importData\<close>, applied to the text of the
  file: the new state and the message of \<open>alert\<close>, if any. Both a throwing
  \<open>JSON.parse\<close> and the property access on \<open>null\<close> end in the \<open>catch\<close>
  block before any setter has run.
\<close>

definition importData :: "('d \<Rightarrow> parsed option) \<Rightarrow> state \<Rightarrow> 'd \<Rightarrow> state \<times> string option" where
  "importData JSON_parse st text =
     (case JSON_parse text of
        None \<Rightarrow> (st, Some ''Invalid file'')
      | Some ParsedNull \<Rightarrow> (st, Some ''Invalid file'')
      | Some (Parsed p) \<Rightarrow>
          (\<lparr>income = nullish (snap_income p) (income st),
            categories = nullish (snap_categories p) (categories st),
            transactions = nullish (snap_transactions p) (transactions st),
            goals = nullish (snap_goals p) (goals st)\<rparr>,
           None))"



subsection \<open>The JSON functions of the platform\<close>




















subsection \<open>Notions used by the properties\<close>

text \<open>
  A number of JavaScript: when it is finite, it is a double. A state of the
  program holds no other numbers.
\<close>

fun js_number :: "jsnum \<Rightarrow> bool" where
  "js_number (Num r) = is_double r"
| "js_number _ = True"

text \<open>A value coerced to a number, a non-numeric value becoming 0.\<close>

fun coerce0 :: "jsnum \<Rightarrow> jsnum" where
  "coerce0 NaN = Num 0"
| "coerce0 x = x"

text \<open>The real number a finite number stands for.\<close>

fun to_real :: "jsnum \<Rightarrow> real" where
  "to_real (Num r) = r"
| "to_real _ = 0"



text \<open>
  The amount of a transaction: \<open>-abs(A)\<close> for an expense and \<open>+abs(A)\<close>
  otherwise, where \<open>A\<close> is the amount coerced to a number, a non-numeric
  amount becoming 0.
\<close>

fun spec_signed_amount :: "bool \<Rightarrow> jsnum \<Rightarrow> jsnum" where
  "spec_signed_amount expense (Num a) = Num (if expense then - \<bar>a\<bar> else \<bar>a\<bar>)"
| "spec_signed_amount expense NaN = Num 0"
| "spec_signed_amount expense _ = (if expense then NInf else PInf)"

text \<open>The balances are finite, and their sum as a real number.\<close>

definition balances_finite :: "category list \<Rightarrow> bool" where
  "balances_finite cs = list_all (\<lambda>c. is_finite (balance c)) cs"


text \<open>The invariant: every balance is a number and at least \<open>0\<close>.\<close>

definition balances_nonneg :: "category list \<Rightarrow> bool" where
  "balances_nonneg cs = list_all (\<lambda>c. js_ge (balance c) (Num 0)) cs"

text \<open>Every percent, coerced to a number, is finite and at least \<open>0\<close>.\<close>

definition percents_nonneg :: "category list \<Rightarrow> bool" where
  "percents_nonneg cs =
     list_all (\<lambda>c. is_finite (coerce0 (percent c)) \<and> js_ge (coerce0 (percent c)) (Num 0)) cs"

text \<open>Category ids are unique, as the generated ids of the data model are.\<close>

definition unique_ids :: "category list \<Rightarrow> bool" where
  "unique_ids cs = distinct (map cat_id cs)"


subsection \<open>Example states\<close>

definition example_categories :: "(string \<times> jsnum \<times> jsnum) list \<Rightarrow> category list" where
  "example_categories xs =
     map (\<lambda>(i, p, b). \<lparr>cat_id = i, cat_name = i, percent = p, balance = b\<rparr>) xs"

definition example_state :: "jsnum \<Rightarrow> (string \<times> jsnum \<times> jsnum) list \<Rightarrow> state" where
  "example_state i xs =
     \<lparr>income = i, categories = example_categories xs, transactions = [], goals = []\<rparr>"

text \<open>The three seeded categories with the weights 50, 30, 20 and an income of 1000.\<close>

definition ex_seed :: state where
  "ex_seed =
     \<lparr>income = Num 1000,
      categories =
        [\<lparr>cat_id = ''cat1'', cat_name = ''Essentials'', percent = Num 50, balance = Num 0\<rparr>,
         \<lparr>cat_id = ''cat2'', cat_name = ''Savings'', percent = Num 30, balance = Num 0\<rparr>,
         \<lparr>cat_id = ''cat3'', cat_name = ''Wants'', percent = Num 20, balance = Num 0\<rparr>],
      transactions = [], goals = []\<rparr>"

text \<open>The same state after the distribution: balances 500, 300, 200.\<close>

definition ex_funded :: state where
  "ex_funded =
     \<lparr>income = Num 1000,
      categories =
        [\<lparr>cat_id = ''cat1'', cat_name = ''Essentials'', percent = Num 50, balance = Num 500\<rparr>,
         \<lparr>cat_id = ''cat2'', cat_name = ''Savings'', percent = Num 30, balance = Num 300\<rparr>,
         \<lparr>cat_id = ''cat3'', cat_name = ''Wants'', percent = Num 20, balance = Num 200\<rparr>],
      transactions = [], goals = []\<rparr>"



text \<open>One category with the weight \<open>0.5\<close>, income 100.\<close>

definition ex_half :: state where
  "ex_half = example_state (Num 100) [(''cat1'', Num (1 / 2), Num 0)]"


text \<open>One category with the weight 100, income \<open>-100\<close>.\<close>

definition ex_negative_income :: state where
  "ex_negative_income = example_state (Num (- 100)) [(''cat1'', Num 100, Num 0)]"

text \<open>The weights 150 and \<open>-50\<close>, income 100.\<close>

definition ex_negative_percent :: state where
  "ex_negative_percent =
     example_state (Num 100) [(''cat1'', Num 150, Num 0), (''cat2'', Num (- 50), Num 0)]"

text \<open>A weight of \<open>Infinity\<close> beside a weight of 1, income 100.\<close>

definition ex_infinite_percent :: state where
  "ex_infinite_percent = example_state (Num 100) [(''cat1'', PInf, Num 0), (''cat2'', Num 1, Num 0)]"

text \<open>An income of \<open>Infinity\<close> with the weights 50 and 0.\<close>

definition ex_infinite_income :: state where
  "ex_infinite_income = example_state PInf [(''cat1'', Num 50, Num 0), (''cat2'', Num 0, Num 0)]"

text \<open>Two weights of \<open>2 ^ 1023\<close>, whose sum is \<open>Infinity\<close>; income 1000.\<close>

definition ex_overflow :: state where
  "ex_overflow =
     example_state (Num 1000) [(''cat1'', Num (2 ^ 1023), Num 0), (''cat2'', Num (2 ^ 1023), Num 0)]"

text \<open>Three weights of 1, income \<open>10 ^ 17\<close>.\<close>

definition ex_large_income :: state where
  "ex_large_income =
     example_state (Num (10 ^ 17))
       [(''cat1'', Num 1, Num 0), (''cat2'', Num 1, Num 0), (''cat3'', Num 1, Num 0)]"

text \<open>The weights \<open>2 ^ 53\<close> and \<open>3 - 2 ^ 53\<close>, which sum to 3; income 600.\<close>

definition ex_mixed_signs :: state where
  "ex_mixed_signs =
     example_state (Num 600) [(''cat1'', Num (2 ^ 53), Num 0), (''cat2'', Num (3 - 2 ^ 53), Num 0)]"



text \<open>One category with an empty balance.\<close>

definition ex_empty_balance :: state where
  "ex_empty_balance = example_state (Num 0) [(''cat1'', Num 100, Num 0)]"

text \<open>Two categories with the same id.\<close>

definition ex_duplicate_ids :: state where
  "ex_duplicate_ids = example_state (Num 0) [(''cat1'', Num 50, Num 0), (''cat1'', Num 50, Num 300)]"

definition ex_duplicate_funded :: state where
  "ex_duplicate_funded = example_state (Num 0) [(''cat1'', Num 50, Num 10), (''cat1'', Num 50, Num 3)]"

text \<open>A category with an empty id.\<close>

definition ex_empty_id :: state where
  "ex_empty_id = example_state (Num 0) [('''', Num 100, Num 300)]"

text \<open>A category with a balance of \<open>Infinity\<close>.\<close>

definition ex_infinite_balance :: state where
  "ex_infinite_balance = example_state (Num 1000) [(''cat1'', Num 100, PInf)]"

text \<open>
  A stand-in for \<open>JSON.parse\<close> on texts, which knows one document, the export of
  \<open>ex_funded\<close>, and the document \<open>null\<close>.
\<close>

definition ex_parse :: "string \<Rightarrow> parsed option" where
  "ex_parse text =
     (if text = ''<export of ex_funded>'' then Some (Parsed (payload ex_funded))
      else if text = ''null'' then Some ParsedNull
      else None)"

text \<open>Weights that cancel as real numbers, but not in the sum the code computes.\<close>

definition ex_cancelling :: state where
  "ex_cancelling =
     example_state (Num 1000)
       [(''cat1'', Num (2 ^ 53), Num 0), (''cat2'', Num 1, Num 0),
        (''cat3'', Num (- (2 ^ 53)), Num 0), (''cat4'', Num (- 1), Num 0)]"

text \<open>A state of the program: every number in it is a number of JavaScript.\<close>

definition js_state :: "state \<Rightarrow> bool" where
  "js_state st =
     (js_number (income st) \<and>
      list_all (\<lambda>c. js_number (percent c) \<and> js_number (balance c)) (categories st) \<and>
      list_all (\<lambda>t. js_number (amount t)) (transactions st) \<and>
      list_all (\<lambda>g. js_number (targetAmount g) \<and> js_number (saved g)) (goals st))"

section \<open>Properties\<close>

subsection \<open>Rounding to the nearest double\<close>

lemma expo_bounds_ge1:
  assumes "1 \<le> x"
  shows "2 powi (expo x) \<le> x" and "x < 2 powi (expo x + 1)"
proof -
  let ?n = "\<lfloor>x\<rfloor>"
  from assms have n: "0 < ?n" by linarith
  from bitlen_bounds [OF n]
  have lo: "2 ^ nat (bitlen ?n - 1) \<le> ?n" and hi: "?n < 2 ^ nat (bitlen ?n)" by simp_all
  have b: "1 \<le> bitlen ?n"
  proof (rule ccontr)
    assume "\<not> 1 \<le> bitlen ?n"
    then have "nat (bitlen ?n) = 0" by simp
    with hi n show False by simp
  qed
  have e: "expo x = bitlen ?n - 1" using assms by (simp add: expo_def)
  from lo have "(2::real) ^ nat (bitlen ?n - 1) \<le> of_int ?n"
    by (metis of_int_le_iff of_int_numeral of_int_power)
  also have "\<dots> \<le> x" by simp
  finally show "2 powi (expo x) \<le> x"
    using b by (simp add: e power_int_nonneg_exp)
  from hi have "?n + 1 \<le> 2 ^ nat (bitlen ?n)" by simp
  then have "of_int (?n + 1) \<le> (2::real) ^ nat (bitlen ?n)"
    by (metis of_int_le_iff of_int_numeral of_int_power)
  moreover have "x < of_int (?n + 1)" by simp
  ultimately have "x < (2::real) ^ nat (bitlen ?n)" by linarith
  then show "x < 2 powi (expo x + 1)"
    using b by (simp add: e power_int_nonneg_exp)
qed

lemma expo_bounds_lt1:
  assumes "0 < x" and "x < 1"
  shows "2 powi (expo x) \<le> x" and "x < 2 powi (expo x + 1)"
proof -
  let ?m = "\<lceil>1 / x\<rceil> - 1"
  from assms have y: "1 < 1 / x" by simp
  then have m: "0 < ?m" by linarith
  from bitlen_bounds [OF m]
  have lo: "2 ^ nat (bitlen ?m - 1) \<le> ?m" and hi: "?m < 2 ^ nat (bitlen ?m)" by simp_all
  have b: "1 \<le> bitlen ?m"
  proof (rule ccontr)
    assume "\<not> 1 \<le> bitlen ?m"
    then have "nat (bitlen ?m) = 0" by simp
    with hi m show False by simp
  qed
  have e: "expo x = - bitlen ?m" using assms by (simp add: expo_def)
  from hi have "?m + 1 \<le> 2 ^ nat (bitlen ?m)" by simp
  then have "of_int (?m + 1) \<le> (2::real) ^ nat (bitlen ?m)"
    by (metis of_int_le_iff of_int_numeral of_int_power)
  moreover have "1 / x \<le> of_int (?m + 1)" by simp
  ultimately have "1 / x \<le> (2::real) ^ nat (bitlen ?m)" by linarith
  with assms(1) have "1 \<le> x * 2 ^ nat (bitlen ?m)"
    by (simp add: field_simps)
  then have "1 / 2 ^ nat (bitlen ?m) \<le> x"
    by (simp add: field_simps)
  moreover have "2 powi (- bitlen ?m) = 1 / (2::real) ^ nat (bitlen ?m)"
    using b by (simp add: power_int_minus_divide power_int_nonneg_exp)
  ultimately show "2 powi (expo x) \<le> x" by (simp add: e)
  from lo have "(2::real) ^ nat (bitlen ?m - 1) \<le> of_int ?m"
    by (metis of_int_le_iff of_int_numeral of_int_power)
  moreover have "of_int ?m < 1 / x"
    using ceiling_correct [of "1 / x"] by simp
  ultimately have "(2::real) ^ nat (bitlen ?m - 1) < 1 / x" by linarith
  with assms(1) have "x * 2 ^ nat (bitlen ?m - 1) < 1"
    by (simp add: field_simps)
  then have "x < 1 / 2 ^ nat (bitlen ?m - 1)"
    by (simp add: field_simps)
  moreover have "2 powi (- bitlen ?m + 1) = 1 / (2::real) ^ nat (bitlen ?m - 1)"
  proof -
    have "- bitlen ?m + 1 = - (bitlen ?m - 1)" by simp
    then show ?thesis
      using b by (simp only: power_int_minus_divide) (simp add: power_int_nonneg_exp)
  qed
  ultimately show "x < 2 powi (expo x + 1)" by (simp add: e)
qed

lemma expo_bounds:
  assumes "0 < x"
  shows "2 powi (expo x) \<le> x" and "x < 2 powi (expo x + 1)"
  using assms expo_bounds_ge1 [of x] expo_bounds_lt1 [of x]
  by (cases "1 \<le> x"; simp)+


lemma round_even_cases:
  "round_even z = \<lfloor>z\<rfloor> \<and> z - of_int \<lfloor>z\<rfloor> \<le> 1 / 2 \<or>
   round_even z = \<lfloor>z\<rfloor> + 1 \<and> 1 / 2 \<le> z - of_int \<lfloor>z\<rfloor>"
  by (auto simp: round_even_def Let_def)

lemma round_even_close: "\<bar>of_int (round_even z) - z\<bar> \<le> 1 / 2"
proof -
  have "of_int \<lfloor>z\<rfloor> \<le> z" and "z < of_int \<lfloor>z\<rfloor> + 1" by simp_all
  with round_even_cases [of z] show ?thesis by auto
qed

lemma round_even_of_int [simp]: "round_even (of_int m) = m"
  by (simp add: round_even_def)

lemma round_even_ge:
  assumes "of_int m \<le> z"
  shows "m \<le> round_even z"
proof -
  from assms have "m \<le> \<lfloor>z\<rfloor>" by (simp add: le_floor_iff)
  with round_even_cases [of z] show ?thesis by auto
qed

lemma round_even_le:
  assumes "z \<le> of_int m"
  shows "round_even z \<le> m"
proof (cases "z = of_int m")
  case True
  then show ?thesis by simp
next
  case False
  with assms have "z < of_int m" by simp
  then have "\<lfloor>z\<rfloor> < m" by (simp add: floor_less_iff)
  with round_even_cases [of z] show ?thesis by auto
qed

lemma quantum_pos [simp]: "0 < quantum x"
  by (simp add: quantum_def)

lemma quantum_nonneg [simp]: "0 \<le> quantum x"
  by (simp add: quantum_def)

lemma quantum_neq_0 [simp]: "quantum x \<noteq> 0"
  by (simp add: quantum_def)

lemma rnd_0 [simp]: "rnd 0 = 0"
  by (simp add: rnd_def)

lemma rnd_nonneg:
  assumes "0 \<le> x"
  shows "0 \<le> rnd x"
proof (cases "x = 0")
  case True
  then show ?thesis by simp
next
  case False
  from assms have "of_int 0 \<le> x / quantum x" by simp
  then have "0 \<le> round_even (x / quantum x)" by (rule round_even_ge)
  with False show ?thesis by (simp add: rnd_def)
qed

lemma rnd_nonpos:
  assumes "x \<le> 0"
  shows "rnd x \<le> 0"
proof (cases "x = 0")
  case True
  then show ?thesis by simp
next
  case False
  from assms have "x / quantum x \<le> of_int 0"
    by (simp add: divide_le_0_iff)
  then have "round_even (x / quantum x) \<le> 0" by (rule round_even_le)
  with False show ?thesis by (simp add: rnd_def mult_le_0_iff)
qed

lemma rnd_close: "\<bar>rnd x - x\<bar> \<le> quantum x / 2"
proof (cases "x = 0")
  case True
  then show ?thesis by simp
next
  case False
  let ?q = "quantum x"
  have "\<bar>rnd x - x\<bar> = ?q * \<bar>of_int (round_even (x / ?q)) - x / ?q\<bar>"
  proof -
    have "rnd x - x = ?q * (of_int (round_even (x / ?q)) - x / ?q)"
      using False by (simp add: rnd_def algebra_simps)
    then show ?thesis by (simp add: abs_mult)
  qed
  also have "\<dots> \<le> ?q * (1 / 2)"
    by (rule mult_left_mono [OF round_even_close]) simp
  finally show ?thesis by simp
qed

lemma quantum_half_bound:
  assumes "x \<noteq> 0"
  shows "quantum x / 2 \<le> \<bar>x\<bar> / 2 ^ 53 + 1 / 2 ^ 1075"
proof -
  from assms have pos: "0 < \<bar>x\<bar>" by simp
  show ?thesis
  proof (cases "- 1022 \<le> expo \<bar>x\<bar>")
    case True
    then have "quantum x = 2 powi (expo \<bar>x\<bar> - 52)" by (simp add: quantum_def max_def)
    also have "\<dots> = 2 powi (expo \<bar>x\<bar>) / 2 ^ 52"
      by (simp add: power_int_diff)
    also have "\<dots> \<le> \<bar>x\<bar> / 2 ^ 52"
      using expo_bounds(1) [OF pos] by (simp add: divide_right_mono)
    finally have "quantum x / 2 \<le> \<bar>x\<bar> / 2 ^ 53" by simp
    then show ?thesis by (simp add: add_increasing2)
  next
    case False
    then have "quantum x = 2 powi (- 1074)" by (simp add: quantum_def max_def)
    also have "\<dots> = 1 / 2 ^ 1074" by (simp add: power_int_minus_divide)
    finally have "quantum x / 2 = 1 / 2 ^ 1075" by simp
    then show ?thesis by simp
  qed
qed

lemma rnd_error: "\<bar>rnd x - x\<bar> \<le> \<bar>x\<bar> / 2 ^ 53 + 1 / 2 ^ 1075"
proof (cases "x = 0")
  case True
  then show ?thesis by simp
next
  case False
  from rnd_close [of x] quantum_half_bound [OF False] show ?thesis by linarith
qed


lemma expo_mono:
  assumes "0 < a" and "a \<le> b"
  shows "expo a \<le> expo b"
proof (rule ccontr)
  assume "\<not> expo a \<le> expo b"
  then have "expo b + 1 \<le> expo a" by simp
  then have "(2::real) powi (expo b + 1) \<le> 2 powi (expo a)"
    by (intro power_int_increasing) simp_all
  also have "\<dots> \<le> a" using assms(1) by (rule expo_bounds(1))
  finally have "2 powi (expo b + 1) \<le> b" using assms(2) by simp
  moreover from assms have "b < 2 powi (expo b + 1)" by (intro expo_bounds(2)) simp
  ultimately show False by simp
qed

lemma rnd_ge_double:
  assumes B: "rnd B = B" "0 < B" and y: "B \<le> y"
  shows "B \<le> rnd y"
proof -
  from B(2) y have ypos: "0 < y" by simp
  let ?eB = "max (expo B) (- 1022)" and ?ey = "max (expo y) (- 1022)"
  have qB: "quantum B = 2 powi (?eB - 52)" using B(2) by (simp add: quantum_def)
  have qy: "quantum y = 2 powi (?ey - 52)" using ypos by (simp add: quantum_def)
  have ry: "rnd y = quantum y * of_int (round_even (y / quantum y))"
    using ypos by (simp add: rnd_def)
  note em = expo_mono [OF B(2) y]
  show ?thesis
  proof (cases "?eB = ?ey")
    case True
    then have q: "quantum y = quantum B" by (simp add: qB qy)
    define m where "m = round_even (B / quantum B)"
    from B have Bm: "B = quantum B * of_int m" by (simp add: rnd_def m_def)
    have "quantum B * of_int m / quantum B = of_int m" by simp
    with Bm have "B / quantum B = of_int m" by simp
    moreover from y have "B / quantum B \<le> y / quantum B"
      by (simp add: divide_right_mono)
    ultimately have "of_int m \<le> y / quantum B" by simp
    then have "m \<le> round_even (y / quantum B)" by (rule round_even_ge)
    then have "quantum B * of_int m \<le> quantum B * of_int (round_even (y / quantum B))"
      by (simp add: mult_left_mono)
    with Bm show ?thesis by (simp add: ry q)
  next
    case False
    with em have lt: "?eB < ?ey" by linarith
    then have ey: "?ey = expo y" by linarith
    have "2 powi (expo y) \<le> y" using ypos by (rule expo_bounds(1))
    then have "2 powi (expo y) / quantum y \<le> y / quantum y"
      by (simp add: divide_right_mono)
    moreover have "2 powi (expo y) / quantum y = (2::real) powi 52"
      unfolding qy ey by (simp add: power_int_diff)
    ultimately have "of_int (2 ^ 52) \<le> y / quantum y" by simp
    then have "2 ^ 52 \<le> round_even (y / quantum y)" by (rule round_even_ge)
    then have "(2::real) ^ 52 \<le> of_int (round_even (y / quantum y))"
      by (metis of_int_le_iff of_int_numeral of_int_power)
    then have "quantum y * 2 ^ 52 \<le> rnd y"
      unfolding ry by (simp add: mult_left_mono)
    moreover have "quantum y * 2 ^ 52 = 2 powi (expo y)"
      unfolding qy ey by (simp add: power_int_diff)
    ultimately have big: "2 powi (expo y) \<le> rnd y" by simp
    have "B < 2 powi (expo B + 1)" using B(2) by (rule expo_bounds(2))
    also have "\<dots> \<le> 2 powi (?eB + 1)"
      by (intro power_int_increasing) simp_all
    also have "\<dots> \<le> 2 powi (expo y)"
    proof (rule power_int_increasing)
      from lt ey show "?eB + 1 \<le> expo y" by linarith
    qed simp
    finally show ?thesis using big by simp
  qed
qed

lemma rnd_mono_abs_bound:
  "\<bar>rnd x\<bar> \<le> \<bar>x\<bar> + \<bar>x\<bar> / 2 ^ 53 + 1 / 2 ^ 1075"
  using rnd_error [of x] by linarith

lemma rnd_le_double:
  assumes B: "rnd B = B" and y: "0 < y" "y \<le> B"
  shows "rnd y \<le> B"
proof -
  from y have Bpos: "0 < B" by simp
  let ?eB = "max (expo B) (- 1022)" and ?ey = "max (expo y) (- 1022)"
  have qB: "quantum B = 2 powi (?eB - 52)" using Bpos by (simp add: quantum_def)
  have qy: "quantum y = 2 powi (?ey - 52)" using y(1) by (simp add: quantum_def)
  have ry: "rnd y = quantum y * of_int (round_even (y / quantum y))"
    using y(1) by (simp add: rnd_def)
  note em = expo_mono [OF y]
  show ?thesis
  proof (cases "?eB = ?ey")
    case True
    then have q: "quantum y = quantum B" by (simp add: qB qy)
    define m where "m = round_even (B / quantum B)"
    from B Bpos have Bm: "B = quantum B * of_int m" by (simp add: rnd_def m_def)
    have "quantum B * of_int m / quantum B = of_int m" by simp
    with Bm have "B / quantum B = of_int m" by simp
    moreover from y(2) have "y / quantum B \<le> B / quantum B"
      by (simp add: divide_right_mono)
    ultimately have "y / quantum B \<le> of_int m" by simp
    then have "round_even (y / quantum B) \<le> m" by (rule round_even_le)
    then have "quantum B * of_int (round_even (y / quantum B)) \<le> quantum B * of_int m"
      by (simp add: mult_left_mono)
    with Bm show ?thesis by (simp add: ry q)
  next
    case False
    with em have lt: "?ey < ?eB" by linarith
    then have eB: "?eB = expo B" by linarith
    have q53: "quantum y * 2 ^ 53 = 2 powi (?ey + 1)"
      unfolding qy by (simp add: power_int_diff power_int_add)
    have "y < 2 powi (expo y + 1)" using y(1) by (rule expo_bounds(2))
    also have "\<dots> \<le> 2 powi (?ey + 1)"
      by (intro power_int_increasing) simp_all
    finally have "y / quantum y < 2 powi (?ey + 1) / quantum y"
      by (simp add: divide_strict_right_mono)
    moreover have "2 powi (?ey + 1) / quantum y = (2::real) ^ 53"
      unfolding q53 [symmetric] by simp
    ultimately have "y / quantum y \<le> of_int (2 ^ 53)" by simp
    then have "round_even (y / quantum y) \<le> 2 ^ 53" by (rule round_even_le)
    then have "of_int (round_even (y / quantum y)) \<le> (2::real) ^ 53"
      by (metis of_int_le_iff of_int_numeral of_int_power)
    then have "rnd y \<le> quantum y * 2 ^ 53"
      unfolding ry by (simp add: mult_left_mono)
    with q53 have "rnd y \<le> 2 powi (?ey + 1)" by simp
    also have "\<dots> \<le> 2 powi (expo B)"
    proof (rule power_int_increasing)
      from lt eB show "?ey + 1 \<le> expo B" by linarith
    qed simp
    also have "\<dots> \<le> B" using Bpos by (rule expo_bounds(1))
    finally show ?thesis .
  qed
qed

subsection \<open>Evaluation\<close>

lemma two_pow_1024:
  "(2::real) ^ 1024 = 179769313486231590772930519078902473361797697894230657273430081157732675805500963132708477322407536021120113879871393357658789768814416622492847430639474124377767893424865485276302219601246094119453082952085005768838150682342462881473913110540827237163350510684586298239947245938479716304835356329624224137216"
  by simp

lemma js_round_code [code]:
  "js_round x =
     (let r = rnd x in
      if 179769313486231590772930519078902473361797697894230657273430081157732675805500963132708477322407536021120113879871393357658789768814416622492847430639474124377767893424865485276302219601246094119453082952085005768838150682342462881473913110540827237163350510684586298239947245938479716304835356329624224137216 \<le> r then PInf
      else if r \<le> - 179769313486231590772930519078902473361797697894230657273430081157732675805500963132708477322407536021120113879871393357658789768814416622492847430639474124377767893424865485276302219601246094119453082952085005768838150682342462881473913110540827237163350510684586298239947245938479716304835356329624224137216 then NInf
      else Num r)"
  by (simp only: js_round_def two_pow_1024)

lemma is_double_code [code]:
  "is_double x =
     (rnd x = x \<and>
      \<bar>x\<bar> < 179769313486231590772930519078902473361797697894230657273430081157732675805500963132708477322407536021120113879871393357658789768814416622492847430639474124377767893424865485276302219601246094119453082952085005768838150682342462881473913110540827237163350510684586298239947245938479716304835356329624224137216)"
  by (simp only: is_double_def two_pow_1024)

subsection \<open>Auxiliary facts\<close>

lemma or0_coerce0: "or0 x = coerce0 x"
  by (cases x) simp_all

lemma js_round_double:
  assumes "is_double x"
  shows "js_round x = Num x"
proof -
  from assms have "rnd x = x" and "x < 2 ^ 1024" and "- (2 ^ 1024) < x"
    by (simp_all add: is_double_def abs_less_iff)
  then show ?thesis by (simp add: js_round_def)
qed

lemma js_round_0 [simp]: "js_round 0 = Num 0"
  by (simp add: js_round_def)

lemma js_plus_0_left:
  assumes "js_number x"
  shows "js_plus (Num 0) x = x"
  using assms by (cases x) (simp_all add: js_round_double)

lemma js_round_nonneg:
  assumes "0 \<le> x"
  shows "js_round x = PInf \<or> (\<exists>r. js_round x = Num r \<and> 0 \<le> r)"
proof -
  from assms have "0 \<le> rnd x" by (rule rnd_nonneg)
  then show ?thesis by (simp add: js_round_def Let_def)
qed

lemma js_ge_0_iff: "js_ge x (Num 0) \<longleftrightarrow> x = PInf \<or> (\<exists>r. x = Num r \<and> 0 \<le> r)"
  by (cases x) (auto simp: js_ge_def)

lemma js_ge_round_nonneg:
  assumes "0 \<le> x"
  shows "js_ge (js_round x) (Num 0)"
  using js_round_nonneg [OF assms] by (simp add: js_ge_0_iff)

lemma find_unique:
  assumes "distinct (map cat_id cs)" and "c \<in> set cs"
  shows "find (\<lambda>cc. Some (cat_id cc) = Some (cat_id c)) cs = Some c"
  using assms by (induction cs) auto

lemma same_id:
  assumes "distinct (map cat_id cs)" and "c \<in> set cs" and "x \<in> set cs" and "cat_id x = cat_id c"
  shows "x = c"
  using assms by (auto simp: distinct_map dest: inj_onD)

lemma signed_amount:
  "(if (case type of Undefined \<Rightarrow> Str ''expense'' | t \<Rightarrow> t) = Str ''expense''
    then js_uminus (Math_abs (or0 amnt)) else Math_abs (or0 amnt))
   = spec_signed_amount (type = Str ''expense'' \<or> type = Undefined) amnt"
  by (cases amnt; cases type) simp_all

subsection \<open>Frame of the distribution\<close>

text \<open>
  C9: for every income and every category list, \<open>distributeIncome\<close> changes only
  the balance of a category: the list keeps its length and order, and the
  category at each position keeps its id, name and percent. Income, transactions
  and goals are not touched.
\<close>

theorem distributeIncome_frame:
  "map cat_id (categories (distributeIncome st)) = map cat_id (categories st) \<and>
   map cat_name (categories (distributeIncome st)) = map cat_name (categories st) \<and>
   map percent (categories (distributeIncome st)) = map percent (categories st) \<and>
   length (categories (distributeIncome st)) = length (categories st) \<and>
   income (distributeIncome st) = income st \<and>
   transactions (distributeIncome st) = transactions st \<and>
   goals (distributeIncome st) = goals st"
  by (simp add: distributeIncome_def Let_def comp_def)

subsection \<open>Proportional split\<close>

lemma ex_half_distributed:
  "map balance (categories (distributeIncome ex_half)) = [Num 50]"
  by code_simp


lemma ex_seed_distributed:
  "map balance (categories (distributeIncome ex_seed)) = [Num 500, Num 300, Num 200]"
  by code_simp




subsection \<open>Equal split\<close>

lemma sum_balance_update:
  "(\<Sum>c\<leftarrow>map (\<lambda>c. c\<lparr>balance := Num v\<rparr>) cs. to_real (balance c)) = real (length cs) * v"
  by (induction cs) (simp_all add: algebra_simps)

text \<open>
  The sum of the weights is the one the code computes, on doubles and from left to
  right: the weights \<open>2 ^ 53, 1, -2 ^ 53, -1\<close> sum to \<open>-1\<close>, not to 0.
\<close>

lemma totalPercent_cancelling: "totalPercent (categories ex_cancelling) = Num (- 1)"
  by code_simp



subsection \<open>Sign of a transaction\<close>

text \<open>
  C6: with \<open>A\<close> the amount coerced to a number, a non-numeric amount becoming 0,
  \<open>addTransaction\<close> puts a new transaction in front of the log whose amount is
  \<open>-abs(A)\<close> when the type is \<open>"expense"\<close> and \<open>+abs(A)\<close> when the type is
  any other value, \<open>"income"\<close> and \<open>null\<close> included. A call that leaves the
  type out is a call with the type \<open>"expense"\<close>, the default of the parameter.
\<close>

theorem addTransaction_sign:
  "transactions (addTransaction new_id now ttl amnt catId type st) =
     \<lparr>tx_id = new_id, title = ttl,
      amount = spec_signed_amount (type = Str ''expense'' \<or> type = Undefined) amnt,
      categoryId = catId, date = now\<rparr> # transactions st"
  by (simp add: addTransaction_def Let_def signed_amount)

theorem addTransaction_sign_witness:
  "map amount (transactions (addTransaction ''tx1'' ''d'' ''Rent'' (Num 600) (Some ''cat1'')
                               (Str ''expense'') ex_funded)) = [Num (- 600)] \<and>
   map amount (transactions (addTransaction ''tx1'' ''d'' ''Gift'' (Num (- 600)) (Some ''cat1'')
                               (Str ''income'') ex_funded)) = [Num 600] \<and>
   map amount (transactions (addTransaction ''tx1'' ''d'' ''Gift'' (Num 600) (Some ''cat1'')
                               Null ex_funded)) = [Num 600] \<and>
   map amount (transactions (addTransaction ''tx1'' ''d'' ''Rent'' (Num 600) (Some ''cat1'')
                               Undefined ex_funded)) = [Num (- 600)] \<and>
   map amount (transactions (addTransaction ''tx1'' ''d'' ''Rent'' NaN (Some ''cat1'')
                               (Str ''expense'') ex_funded)) = [Num 0] \<and>
   map amount (transactions (addTransaction ''tx1'' ''d'' ''Rent'' PInf (Some ''cat1'')
                               (Str ''expense'') ex_funded)) = [NInf]"
proof -
  have tr: "transactions ex_funded = []" by (simp add: ex_funded_def)
  show ?thesis
    by (simp add: addTransaction_sign tr)
qed

subsection \<open>Non-negative balances\<close>

lemma nonneg_map:
  assumes "\<And>c. c \<in> set cs \<Longrightarrow> js_ge (balance (f c)) (Num 0)"
  shows "balances_nonneg (map f cs)"
  using assms by (simp add: balances_nonneg_def list_all_iff)

lemma nonneg_member:
  assumes "balances_nonneg cs" and "c \<in> set cs"
  shows "js_ge (balance c) (Num 0)"
  using assms by (simp add: balances_nonneg_def list_all_iff)

lemma finite_member:
  assumes "balances_finite cs" and "c \<in> set cs"
  shows "is_finite (balance c)"
  using assms by (simp add: balances_finite_def list_all_iff)

lemma Math_max_0_nonneg:
  assumes "x \<noteq> NaN"
  shows "js_ge (Math_max (Num 0) x) (Num 0)"
  using assms by (cases x) (auto simp: js_ge_def)

lemma signed_cases:
  "spec_signed_amount e amnt = PInf \<or> spec_signed_amount e amnt = NInf \<or>
   (\<exists>s. spec_signed_amount e amnt = Num s)"
  by (cases amnt) auto

lemma signed_finite:
  assumes "is_finite (coerce0 amnt)"
  shows "\<exists>s. spec_signed_amount e amnt = Num s"
  using assms by (cases amnt) auto

lemma js_plus_not_NaN:
  assumes "js_ge b (Num 0)" and "is_finite b \<or> is_finite s" and "s \<noteq> NaN"
  shows "js_plus b s \<noteq> NaN"
proof -
  have r: "js_round x \<noteq> NaN" for x by (simp add: js_round_def Let_def)
  from assms show ?thesis
    by (cases b; cases s) (auto simp: js_ge_def r)
qed

lemma addTransaction_categories:
  "categories (addTransaction new_id now ttl amnt catId type st) =
     (if truthy catId
      then map (\<lambda>c. if Some (cat_id c) = catId
                     then c\<lparr>balance := Math_max (Num 0) (js_plus (balance c)
                            (spec_signed_amount (type = Str ''expense'' \<or> type = Undefined) amnt))\<rparr>
                     else c)
               (categories st)
      else categories st)"
  by (simp only: addTransaction_def Let_def signed_amount) simp

lemma addTransaction_nonneg:
  assumes nn: "balances_nonneg (categories st)"
    and f: "is_finite (coerce0 amnt) \<or> balances_finite (categories st)"
  shows "balances_nonneg (categories (addTransaction new_id now ttl amnt catId type st))"
proof -
  let ?s = "spec_signed_amount (type = Str ''expense'' \<or> type = Undefined) amnt"
  have s: "?s \<noteq> NaN" using signed_cases [of _ amnt] by (cases amnt) auto
  have step: "js_ge (Math_max (Num 0) (js_plus (balance c) ?s)) (Num 0)"
    if "c \<in> set (categories st)" for c
  proof (rule Math_max_0_nonneg, rule js_plus_not_NaN)
    from nn that show "js_ge (balance c) (Num 0)" by (rule nonneg_member)
    from f show "is_finite (balance c) \<or> is_finite ?s"
    proof
      assume "is_finite (coerce0 amnt)"
      from signed_finite [OF this] show ?thesis by (metis is_finite.simps(1))
    next
      assume "balances_finite (categories st)"
      from finite_member [OF this that] show ?thesis by simp
    qed
    show "?s \<noteq> NaN" by (rule s)
  qed
  show ?thesis
  proof (cases "truthy catId")
    case False
    with nn show ?thesis by (simp add: addTransaction_categories)
  next
    case True
    have "balances_nonneg
            (map (\<lambda>c. if Some (cat_id c) = catId
                      then c\<lparr>balance := Math_max (Num 0) (js_plus (balance c) ?s)\<rparr> else c)
                 (categories st))"
      by (rule nonneg_map) (simp add: step nonneg_member [OF nn])
    with True show ?thesis
      by (simp add: addTransaction_categories)
  qed
qed

lemma createGoal_transfer:
  assumes d: "distinct (map cat_id (categories st))"
    and c: "c \<in> set (categories st)" and fid: "cat_id c = fid" "fid \<noteq> []"
    and B: "js_greater (balance c) (Num 0)"
  shows "createGoal gid nm target (Some fid) st =
           st\<lparr>categories :=
                 map (\<lambda>cc. if cat_id cc = fid
                            then cc\<lparr>balance :=
                                   js_minus (balance c) (Math_min (balance c) (coerce0 target))\<rparr>
                            else cc)
                     (categories st),
               goals :=
                 map (\<lambda>gg. if goal_id gg = gid
                            then gg\<lparr>saved :=
                                   js_plus (saved gg) (Math_min (balance c) (coerce0 target))\<rparr>
                            else gg)
                     (goals st)
                 @ [\<lparr>goal_id = gid, goal_name = nm, targetAmount = coerce0 target,
                      saved = js_plus (Num 0) (Math_min (balance c) (coerce0 target))\<rparr>]\<rparr>"
proof -
  let ?t = "Math_min (balance c) (coerce0 target)"
  from find_unique [OF d c] fid
  have f: "find (\<lambda>cc. cat_id cc = fid) (categories st) = Some c" by simp
  have m: "map (\<lambda>cc. if cat_id cc = fid then cc\<lparr>balance := js_minus (balance cc) ?t\<rparr> else cc)
               (categories st)
         = map (\<lambda>cc. if cat_id cc = fid then cc\<lparr>balance := js_minus (balance c) ?t\<rparr> else cc)
               (categories st)"
  proof (rule map_cong [OF refl])
    fix x assume x: "x \<in> set (categories st)"
    show "(if cat_id x = fid then x\<lparr>balance := js_minus (balance x) ?t\<rparr> else x)
        = (if cat_id x = fid then x\<lparr>balance := js_minus (balance c) ?t\<rparr> else x)"
    proof (cases "cat_id x = fid")
      case True
      with same_id [OF d c x] fid have "x = c" by simp
      then show ?thesis by simp
    next
      case False
      then show ?thesis by simp
    qed
  qed
  show ?thesis
    using fid B by (simp add: createGoal_def Let_def f or0_coerce0 m cong: if_cong)
qed

lemma createGoal_categories_cases:
  "categories (createGoal gid nm target from st) = categories st \<or>
   (\<exists>fid c. from = Some fid \<and> fid \<noteq> [] \<and> c \<in> set (categories st) \<and> cat_id c = fid \<and>
        js_greater (balance c) (Num 0))"
proof (cases "truthy from")
  case False
  then show ?thesis by (simp add: createGoal_def Let_def)
next
  case True
  then obtain fid where fid: "from = Some fid" "fid \<noteq> []"
    by (cases "from") simp_all
  show ?thesis
  proof (cases "find (\<lambda>cc. Some (cat_id cc) = from) (categories st)")
    case None
    with True show ?thesis by (simp add: createGoal_def Let_def)
  next
    case (Some c)
    then have c: "c \<in> set (categories st)" "cat_id c = fid"
      using fid by (auto simp: find_Some_iff in_set_conv_nth)
    show ?thesis
    proof (cases "js_greater (balance c) (Num 0)")
      case False
      with True Some show ?thesis by (simp add: createGoal_def Let_def)
    next
      case True
      with fid c show ?thesis by blast
    qed
  qed
qed

lemma transfer_nonneg:
  assumes b: "js_greater b (Num 0)" and f: "is_finite b \<or> is_finite t" and t: "t \<noteq> NaN"
  shows "js_ge (js_minus b (Math_min b t)) (Num 0)"
proof (cases b)
  case (Num B)
  with b have B: "0 < B" by simp
  show ?thesis
  proof (cases t)
    case (Num T)
    have "0 \<le> B - min B T" by simp
    then have "js_ge (js_round (B - min B T)) (Num 0)" by (rule js_ge_round_nonneg)
    then show ?thesis
      using \<open>b = Num B\<close> Num by (auto simp: js_minus_def min_def)
  next
    case PInf
    have "js_ge (js_round 0) (Num 0)" by (simp add: js_ge_def)
    then show ?thesis using \<open>b = Num B\<close> PInf by (simp add: js_minus_def)
  next
    case NInf
    then show ?thesis using \<open>b = Num B\<close> by (simp add: js_minus_def js_ge_def)
  next
    case NaN
    with t show ?thesis by simp
  qed
next
  case PInf
  with f obtain T where "t = Num T" by (cases t) auto
  with PInf show ?thesis by (simp add: js_minus_def js_ge_def)
next
  case NInf
  with b show ?thesis by simp
next
  case NaN
  with b show ?thesis by simp
qed

lemma coerce0_not_NaN [simp]: "coerce0 x \<noteq> NaN"
  by (cases x) simp_all

lemma createGoal_nonneg:
  assumes nn: "balances_nonneg (categories st)" and d: "distinct (map cat_id (categories st))"
    and f: "is_finite (coerce0 target) \<or> balances_finite (categories st)"
  shows "balances_nonneg (categories (createGoal gid nm target from st))"
  using createGoal_categories_cases [of gid nm target "from" st]
proof
  assume "categories (createGoal gid nm target from st) = categories st"
  with nn show ?thesis by simp
next
  assume "\<exists>fid c. from = Some fid \<and> fid \<noteq> [] \<and> c \<in> set (categories st) \<and> cat_id c = fid \<and>
        js_greater (balance c) (Num 0)"
  then obtain fid c where h: "from = Some fid" "fid \<noteq> []" "c \<in> set (categories st)"
      "cat_id c = fid" "js_greater (balance c) (Num 0)"
    by blast
  from f have "is_finite (balance c) \<or> is_finite (coerce0 target)"
    using finite_member [OF _ h(3)] by blast
  with h(5) have "js_ge (js_minus (balance c) (Math_min (balance c) (coerce0 target))) (Num 0)"
    by (intro transfer_nonneg) simp_all
  then have "balances_nonneg
     (map (\<lambda>cc. if cat_id cc = fid
                then cc\<lparr>balance := js_minus (balance c) (Math_min (balance c) (coerce0 target))\<rparr>
                else cc)
          (categories st))"
    by (intro nonneg_map) (simp add: nonneg_member [OF nn])
  then show ?thesis
    unfolding h(1) createGoal_transfer [OF d h(3) h(4) h(2) h(5)] by simp
qed

lemma balances_nonneg_map:
  "balances_nonneg cs = list_all (\<lambda>b. js_ge b (Num 0)) (map balance cs)"
  by (simp add: balances_nonneg_def list_all_iff)

lemma percent_member:
  assumes "percents_nonneg cs" and "c \<in> set cs"
  shows "\<exists>p. coerce0 (percent c) = Num p \<and> 0 \<le> p"
proof -
  from assms have "is_finite (coerce0 (percent c))" and "js_ge (coerce0 (percent c)) (Num 0)"
    by (simp_all add: percents_nonneg_def list_all_iff)
  then show ?thesis by (cases "coerce0 (percent c)") (auto simp: js_ge_def)
qed

lemma foldl_percent_nonneg:
  assumes "js_ge a (Num 0)" and "percents_nonneg cs"
  shows "js_ge (foldl (\<lambda>s c. js_plus s (or0 (percent c))) a cs) (Num 0)"
  using assms
proof (induction cs arbitrary: a)
  case Nil
  then show ?case by simp
next
  case (Cons c cs)
  from Cons.prems(2) have rest: "percents_nonneg cs"
    by (simp add: percents_nonneg_def)
  from percent_member [OF Cons.prems(2), of c]
  obtain p where p: "coerce0 (percent c) = Num p" "0 \<le> p" by auto
  from Cons.prems(1) have "js_ge (js_plus a (Num p)) (Num 0)"
  proof (cases a)
    case (Num r)
    with Cons.prems(1) have "0 \<le> r + p" using p(2) by (auto simp: js_ge_def)
    then show ?thesis using Num by (simp add: js_ge_round_nonneg)
  qed (simp_all add: js_ge_def)
  with Cons.IH [OF _ rest] show ?case by (simp add: or0_coerce0 p)
qed

lemma totalPercent_nonneg:
  assumes "percents_nonneg cs"
  shows "totalPercent cs = PInf \<or> (\<exists>T. totalPercent cs = Num T \<and> 0 \<le> T)"
proof -
  have "js_ge (Num 0) (Num 0)" by (simp add: js_ge_def)
  from foldl_percent_nonneg [OF this assms] show ?thesis
    by (simp add: totalPercent_def js_ge_0_iff)
qed

lemma quotient_finite:
  assumes "is_double p" and "0 \<le> p" and "1 \<le> m"
  shows "\<exists>q. js_round (p / m) = Num q \<and> 0 \<le> q"
proof (cases "p = 0")
  case True
  then show ?thesis by simp
next
  case False
  with assms(2) have pos: "0 < p" by simp
  from assms(1) have dbl: "rnd p = p" and bound: "p < 2 ^ 1024"
    by (simp_all add: is_double_def abs_less_iff)
  from pos assms(3) have q: "0 < p / m" "p / m \<le> p"
    by (simp_all add: field_simps mult_le_cancel_left1)
  from rnd_le_double [OF dbl q] have "rnd (p / m) \<le> p" .
  moreover from q(1) have "0 \<le> rnd (p / m)" by (intro rnd_nonneg) simp
  ultimately show ?thesis using bound by (simp add: js_round_def)
qed

lemma Math_round_nonneg:
  assumes "js_ge x (Num 0)"
  shows "js_ge (Math_round x) (Num 0)"
proof (cases x)
  case (Num r)
  with assms have "0 \<le> r" by (auto simp: js_ge_def)
  then have "(0::real) \<le> of_int \<lfloor>r + 1 / 2\<rfloor>" by simp
  with Num show ?thesis by (simp add: js_ge_0_iff)
qed (use assms in \<open>simp_all add: js_ge_def\<close>)

lemma Math_floor_nonneg:
  assumes "js_ge x (Num 0)"
  shows "js_ge (Math_floor x) (Num 0)"
proof (cases x)
  case (Num r)
  with assms have "0 \<le> r" by (auto simp: js_ge_def)
  then have "(0::real) \<le> of_int \<lfloor>r\<rfloor>" by simp
  with Num show ?thesis by (simp add: js_ge_0_iff)
qed (use assms in \<open>simp_all add: js_ge_def\<close>)

lemma distributeIncome_nonneg:
  assumes I: "income st = Num I" "0 \<le> I" and p: "percents_nonneg (categories st)"
    and n: "list_all (\<lambda>c. js_number (percent c)) (categories st)"
    and nn: "balances_nonneg (categories st)"
  shows "balances_nonneg (categories (distributeIncome st))"
proof (cases "categories st = []")
  case True
  then show ?thesis by (simp add: distributeIncome_def balances_nonneg_def)
next
  case ne: False
  let ?tp = "totalPercent (categories st)"
  show ?thesis
  proof (cases "js_eq ?tp (Num 0)")
    case True
    have "0 \<le> I / real (length (categories st))" using I(2) by simp
    then have "js_ge (js_round (I / real (length (categories st)))) (Num 0)"
      by (rule js_ge_round_nonneg)
    then have "js_ge (Math_floor (js_divide (Num I) (Num (real (length (categories st))))))
                 (Num 0)"
      using ne by (simp add: Math_floor_nonneg)
    then have "balances_nonneg
       (map (\<lambda>c. c\<lparr>balance := Math_floor (js_divide (Num I) (Num (real (length (categories st)))))\<rparr>)
            (categories st))"
      by (intro nonneg_map) simp
    with ne True I(1) show ?thesis by (simp add: distributeIncome_def)
  next
    case False
    have each: "js_ge (Math_round (js_times (js_divide (coerce0 (percent c)) (Math_max ?tp (Num 1)))
                                            (Num I))) (Num 0)"
      if c: "c \<in> set (categories st)" for c
    proof -
      from percent_member [OF p c] obtain q where q: "coerce0 (percent c) = Num q" "0 \<le> q"
        by auto
      from n c have "js_number (percent c)" by (simp add: list_all_iff)
      with q(1) have dq: "is_double q"
        by (cases "percent c") (auto simp: is_double_def)
      have "\<exists>r. js_divide (Num q) (Math_max ?tp (Num 1)) = Num r \<and> 0 \<le> r"
        using totalPercent_nonneg [OF p]
      proof
        assume "?tp = PInf"
        then show ?thesis by simp
      next
        assume "\<exists>T. ?tp = Num T \<and> 0 \<le> T"
        then obtain T where T: "?tp = Num T" by blast
        have m: "1 \<le> max T 1" by simp
        from quotient_finite [OF dq q(2) m] obtain r
          where "js_round (q / max T 1) = Num r" "0 \<le> r" by blast
        moreover have "Math_max (Num T) (Num 1) = Num (max T 1)"
          by (simp add: max_def)
        moreover from m have "max T 1 \<noteq> 0" by linarith
        ultimately show ?thesis unfolding T by simp
      qed
      then obtain r where r: "js_divide (Num q) (Math_max ?tp (Num 1)) = Num r" "0 \<le> r"
        by blast
      from r(2) I(2) have "0 \<le> r * I" by simp
      then have "js_ge (js_round (r * I)) (Num 0)" by (rule js_ge_round_nonneg)
      then show ?thesis unfolding q(1) r(1) by (simp add: Math_round_nonneg)
    qed
    have "balances_nonneg
       (map (\<lambda>c. c\<lparr>balance := Math_round (js_times (js_divide (coerce0 (percent c))
                                  (Math_max ?tp (Num 1))) (Num I))\<rparr>)
            (categories st))"
      by (intro nonneg_map) (simp add: each)
    with ne False I(1) show ?thesis by (simp add: distributeIncome_def or0_coerce0)
  qed
qed

text \<open>
  C2, as stated, fails. \<open>distributeIncome\<close> has no clamp: an income of \<open>-100\<close>
  with one category of weight 100 gives the balance \<open>-100\<close>; the weights 150 and
  \<open>-50\<close> with an income of 100 give the balances 150 and \<open>-50\<close>; a weight of
  \<open>Infinity\<close> gives \<open>Infinity / Infinity = NaN\<close>; an income of \<open>Infinity\<close>
  gives \<open>0 * Infinity = NaN\<close> for a weight of 0. \<open>createGoal\<close> withdraws the
  transfer from every category with the id, so with the balances 10 and 3 under
  one id and a target of 10 the second balance becomes \<open>-7\<close>. With a balance of
  \<open>Infinity\<close>, a target of \<open>Infinity\<close> and an expense of \<open>Infinity\<close> both
  give \<open>Infinity - Infinity = NaN\<close>.
\<close>

theorem balances_nonneg_counterexample:
  "balances_nonneg (categories ex_negative_income) \<and>
   map balance (categories (distributeIncome ex_negative_income)) = [Num (- 100)] \<and>
   \<not> balances_nonneg (categories (distributeIncome ex_negative_income)) \<and>
   balances_nonneg (categories ex_negative_percent) \<and>
   map balance (categories (distributeIncome ex_negative_percent)) = [Num 150, Num (- 50)] \<and>
   \<not> balances_nonneg (categories (distributeIncome ex_negative_percent)) \<and>
   balances_nonneg (categories ex_infinite_percent) \<and>
   map balance (categories (distributeIncome ex_infinite_percent)) = [NaN, Num 0] \<and>
   \<not> balances_nonneg (categories (distributeIncome ex_infinite_percent)) \<and>
   balances_nonneg (categories ex_infinite_income) \<and>
   map balance (categories (distributeIncome ex_infinite_income)) = [PInf, NaN] \<and>
   \<not> balances_nonneg (categories (distributeIncome ex_infinite_income)) \<and>
   balances_nonneg (categories ex_duplicate_funded) \<and>
   map balance (categories (createGoal ''g1'' ''Trip'' (Num 10) (Some ''cat1'') ex_duplicate_funded))
     = [Num 0, Num (- 7)] \<and>
   \<not> balances_nonneg
        (categories (createGoal ''g1'' ''Trip'' (Num 10) (Some ''cat1'') ex_duplicate_funded)) \<and>
   balances_nonneg (categories ex_infinite_balance) \<and>
   map balance (categories (createGoal ''g1'' ''Trip'' PInf (Some ''cat1'') ex_infinite_balance))
     = [NaN] \<and>
   \<not> balances_nonneg
        (categories (createGoal ''g1'' ''Trip'' PInf (Some ''cat1'') ex_infinite_balance)) \<and>
   map balance (categories (addTransaction ''tx1'' ''d'' ''Rent'' PInf (Some ''cat1'')
                              (Str ''expense'') ex_infinite_balance)) = [NaN] \<and>
   \<not> balances_nonneg
        (categories (addTransaction ''tx1'' ''d'' ''Rent'' PInf (Some ''cat1'')
                       (Str ''expense'') ex_infinite_balance))"
proof -
  have before:
    "balances_nonneg (categories ex_negative_income)"
    "balances_nonneg (categories ex_negative_percent)"
    "balances_nonneg (categories ex_infinite_percent)"
    "balances_nonneg (categories ex_infinite_income)"
    "balances_nonneg (categories ex_duplicate_funded)"
    "balances_nonneg (categories ex_infinite_balance)"
    by (simp_all add: balances_nonneg_def js_ge_def ex_negative_income_def ex_negative_percent_def
          ex_infinite_percent_def ex_infinite_income_def ex_duplicate_funded_def
          ex_infinite_balance_def example_state_def example_categories_def)
  have after:
    "map balance (categories (distributeIncome ex_negative_income)) = [Num (- 100)]"
    "map balance (categories (distributeIncome ex_negative_percent)) = [Num 150, Num (- 50)]"
    "map balance (categories (distributeIncome ex_infinite_percent)) = [NaN, Num 0]"
    "map balance (categories (distributeIncome ex_infinite_income)) = [PInf, NaN]"
    "map balance (categories (createGoal ''g1'' ''Trip'' (Num 10) (Some ''cat1'') ex_duplicate_funded))
       = [Num 0, Num (- 7)]"
    "map balance (categories (createGoal ''g1'' ''Trip'' PInf (Some ''cat1'') ex_infinite_balance))
       = [NaN]"
    "map balance (categories (addTransaction ''tx1'' ''d'' ''Rent'' PInf (Some ''cat1'')
                              (Str ''expense'') ex_infinite_balance)) = [NaN]"
    by code_simp+
  show ?thesis
    unfolding balances_nonneg_map [of "categories (distributeIncome _)"]
      balances_nonneg_map [of "categories (createGoal _ _ _ _ _)"]
      balances_nonneg_map [of "categories (addTransaction _ _ _ _ _ _ _)"] after
    using before by (simp add: js_ge_def)
qed

text \<open>
  C2, amended: from a state of JavaScript numbers in which every balance is at
  least 0, \<open>addTransaction\<close> leads to such a state for every input, unless an
  infinite amount meets an infinite balance; so does \<open>createGoal\<close> when the
  category ids are unique, unless an infinite target meets an infinite balance;
  and so does \<open>distributeIncome\<close> when the income is a finite number that is at
  least 0 and every coerced percent is finite and at least 0.
\<close>

theorem balances_nonneg_preserved:
  assumes "js_state st" and "balances_nonneg (categories st)"
  shows "(is_finite (coerce0 amnt) \<or> balances_finite (categories st) \<longrightarrow>
            balances_nonneg (categories (addTransaction new_id now ttl amnt catId type st))) \<and>
         (unique_ids (categories st) \<and>
          (is_finite (coerce0 target) \<or> balances_finite (categories st)) \<longrightarrow>
            balances_nonneg (categories (createGoal gid nm target from st))) \<and>
         (is_finite (income st) \<and> js_ge (income st) (Num 0) \<and> percents_nonneg (categories st) \<longrightarrow>
            balances_nonneg (categories (distributeIncome st)))"
proof (intro conjI impI)
  assume "is_finite (coerce0 amnt) \<or> balances_finite (categories st)"
  with assms(2) show "balances_nonneg (categories (addTransaction new_id now ttl amnt catId type st))"
    by (rule addTransaction_nonneg)
next
  assume "unique_ids (categories st) \<and>
          (is_finite (coerce0 target) \<or> balances_finite (categories st))"
  with assms(2) show "balances_nonneg (categories (createGoal gid nm target from st))"
    by (simp add: createGoal_nonneg unique_ids_def)
next
  assume h: "is_finite (income st) \<and> js_ge (income st) (Num 0) \<and> percents_nonneg (categories st)"
  then obtain I where I: "income st = Num I" "0 \<le> I"
    by (cases "income st") (auto simp: js_ge_def)
  from assms(1) have n: "list_all (\<lambda>c. js_number (percent c)) (categories st)"
    by (simp add: js_state_def list_all_iff)
  from I h n assms(2) show "balances_nonneg (categories (distributeIncome st))"
    by (intro distributeIncome_nonneg) simp_all
qed

theorem balances_nonneg_preserved_witness:
  "js_state ex_funded \<and> balances_nonneg (categories ex_funded) \<and>
   is_finite (coerce0 (Num 600)) \<and> unique_ids (categories ex_funded) \<and>
   is_finite (coerce0 (Num 1000)) \<and>
   is_finite (income ex_funded) \<and> js_ge (income ex_funded) (Num 0) \<and>
   percents_nonneg (categories ex_funded) \<and>
   balances_nonneg (categories (addTransaction ''tx1'' ''d'' ''Rent'' (Num 600) (Some ''cat1'')
                                  (Str ''expense'') ex_funded)) \<and>
   balances_nonneg (categories (createGoal ''g1'' ''Trip'' (Num 1000) (Some ''cat2'') ex_funded)) \<and>
   balances_nonneg (categories (distributeIncome ex_funded)) \<and>
   map balance (categories (addTransaction ''tx1'' ''d'' ''Rent'' (Num 600) (Some ''cat1'')
                              (Str ''expense'') ex_funded)) = [Num 0, Num 300, Num 200]"
proof -
  have d: "is_double 1000" "is_double 50" "is_double 30" "is_double 20" "is_double 500"
      "is_double 300" "is_double 200"
    by code_simp+
  then have js: "js_state ex_funded"
    by (simp add: js_state_def ex_funded_def)
  have nn: "balances_nonneg (categories ex_funded)"
    and u: "unique_ids (categories ex_funded)"
    and i: "is_finite (income ex_funded)" "js_ge (income ex_funded) (Num 0)"
    and p: "percents_nonneg (categories ex_funded)"
    by (simp_all add: ex_funded_def balances_nonneg_def unique_ids_def percents_nonneg_def js_ge_def)
  have v: "map balance (categories (addTransaction ''tx1'' ''d'' ''Rent'' (Num 600) (Some ''cat1'')
                              (Str ''expense'') ex_funded)) = [Num 0, Num 300, Num 200]"
    by code_simp
  have a: "is_finite (coerce0 (Num 600))" and t: "is_finite (coerce0 (Num 1000))" by simp_all
  from balances_nonneg_preserved [OF js nn, of "Num 600" "''tx1''" "''d''" "''Rent''"
      "Some ''cat1''" "Str ''expense''" "Num 1000" "''g1''" "''Trip''" "Some ''cat2''"]
    js nn u i p v a t
  show ?thesis by blast
qed

subsection \<open>Goal transfer\<close>

lemma state_balance_number:
  assumes "js_state st" and "c \<in> set (categories st)"
  shows "js_number (balance c)"
  using assms by (simp add: js_state_def list_all_iff)

lemma js_number_coerce0:
  assumes "js_number x"
  shows "js_number (coerce0 x)"
proof (cases x)
  case NaN
  have "is_double 0" by (simp add: is_double_def)
  with NaN show ?thesis by simp
qed (use assms in simp_all)

lemma js_number_Math_min:
  assumes "js_number a" and "js_number b"
  shows "js_number (Math_min a b)"
  using assms by (cases a; cases b) auto

lemma createGoal_unfunded:
  assumes d: "distinct (map cat_id (categories st))"
    and c: "c \<in> set (categories st)" and fid: "cat_id c = fid"
    and B: "\<not> js_greater (balance c) (Num 0)"
  shows "createGoal gid nm target (Some fid) st =
           st\<lparr>goals := goals st @ [\<lparr>goal_id = gid, goal_name = nm, targetAmount = coerce0 target,
                                     saved = Num 0\<rparr>]\<rparr>"
proof -
  from find_unique [OF d c] fid
  have f: "find (\<lambda>cc. cat_id cc = fid) (categories st) = Some c" by simp
  from B show ?thesis by (simp add: createGoal_def Let_def f or0_coerce0)
qed

text \<open>
  C3, as stated, fails in four ways. The transfer is guarded by
  \<open>c.balance > 0\<close>: with a balance of 0 and a target of \<open>-5\<close> the goal keeps
  \<open>saved = 0\<close> and the balance stays 0, where the claim gives
  \<open>saved = min(0, -5) = -5\<close>. The subtraction is one of doubles: with a balance
  of 300 and a target of \<open>2 ^ -60\<close> the goal has \<open>saved = 2 ^ -60\<close> and the
  balance stays 300. The category is the first with the id, and every category
  with the id is charged: with the balances 10 and 3 under one id and a target of
  10, the goal has \<open>saved = 10\<close> and the second balance becomes \<open>-7\<close>, where
  the claim gives \<open>min(3, 10) = 3\<close> for it. An empty id is no id: nothing is
  transferred from a category whose id is the empty string.
\<close>

theorem createGoal_funding_counterexample:
  "map balance (categories ex_empty_balance) = [Num 0] \<and>
   saved (last (goals (createGoal ''g1'' ''Trip'' (Num (- 5)) (Some ''cat1'') ex_empty_balance))) = Num 0 \<and>
   Math_min (Num 0) (coerce0 (Num (- 5))) = Num (- 5) \<and>
   map balance (categories (createGoal ''g1'' ''Trip'' (Num (- 5)) (Some ''cat1'') ex_empty_balance))
     = [Num 0] \<and>
   map balance (categories ex_funded) = [Num 500, Num 300, Num 200] \<and>
   saved (last (goals (createGoal ''g1'' ''Trip'' (Num (1 / 2 ^ 60)) (Some ''cat2'') ex_funded)))
     = Num (1 / 2 ^ 60) \<and>
   map balance (categories (createGoal ''g1'' ''Trip'' (Num (1 / 2 ^ 60)) (Some ''cat2'') ex_funded))
     = [Num 500, Num 300, Num 200] \<and>
   (300 :: real) - 1 / 2 ^ 60 \<noteq> 300 \<and>
   map balance (categories ex_duplicate_funded) = [Num 10, Num 3] \<and>
   map cat_id (categories ex_duplicate_funded) = [''cat1'', ''cat1''] \<and>
   saved (last (goals (createGoal ''g1'' ''Trip'' (Num 10) (Some ''cat1'') ex_duplicate_funded)))
     = Num 10 \<and>
   Math_min (Num 3) (coerce0 (Num 10)) = Num 3 \<and>
   map balance (categories (createGoal ''g1'' ''Trip'' (Num 10) (Some ''cat1'') ex_duplicate_funded))
     = [Num 0, Num (- 7)] \<and>
   map balance (categories ex_empty_id) = [Num 300] \<and>
   map cat_id (categories ex_empty_id) = [''''] \<and>
   saved (last (goals (createGoal ''g1'' ''Trip'' (Num 100) (Some '''') ex_empty_id))) = Num 0 \<and>
   Math_min (Num 300) (coerce0 (Num 100)) = Num 100 \<and>
   map balance (categories (createGoal ''g1'' ''Trip'' (Num 100) (Some '''') ex_empty_id)) = [Num 300]"
proof -
  have run:
    "saved (last (goals (createGoal ''g1'' ''Trip'' (Num (- 5)) (Some ''cat1'') ex_empty_balance))) = Num 0"
    "map balance (categories (createGoal ''g1'' ''Trip'' (Num (- 5)) (Some ''cat1'') ex_empty_balance))
       = [Num 0]"
    "saved (last (goals (createGoal ''g1'' ''Trip'' (Num (1 / 2 ^ 60)) (Some ''cat2'') ex_funded)))
       = Num (1 / 2 ^ 60)"
    "map balance (categories (createGoal ''g1'' ''Trip'' (Num (1 / 2 ^ 60)) (Some ''cat2'') ex_funded))
       = [Num 500, Num 300, Num 200]"
    "saved (last (goals (createGoal ''g1'' ''Trip'' (Num 10) (Some ''cat1'') ex_duplicate_funded)))
       = Num 10"
    "map balance (categories (createGoal ''g1'' ''Trip'' (Num 10) (Some ''cat1'') ex_duplicate_funded))
       = [Num 0, Num (- 7)]"
    "saved (last (goals (createGoal ''g1'' ''Trip'' (Num 100) (Some '''') ex_empty_id))) = Num 0"
    "map balance (categories (createGoal ''g1'' ''Trip'' (Num 100) (Some '''') ex_empty_id)) = [Num 300]"
    by code_simp+
  show ?thesis
    unfolding run
    by (simp add: ex_empty_balance_def ex_funded_def ex_duplicate_funded_def ex_empty_id_def
          example_state_def example_categories_def)
qed

text \<open>
  C3, amended: in a state of JavaScript numbers with unique category ids that
  contains a category with the non-empty id \<open>fromCategoryId\<close> and a balance
  \<open>B\<close>, where \<open>B > 0\<close>, or \<open>B = 0\<close> and the target is at least 0,
  \<open>createGoal\<close> appends a goal with \<open>saved = min(B, target)\<close>, the target
  coerced to a number, and sets the balance of that category to the difference
  of doubles \<open>B - min(B, target)\<close>; the categories with another id are unchanged.
\<close>

theorem createGoal_funding:
  assumes "js_state st" and "js_number target" and "unique_ids (categories st)"
    and "c \<in> set (categories st)" and "cat_id c = fid" and "fid \<noteq> []"
    and "js_greater (balance c) (Num 0) \<or>
         (balance c = Num 0 \<and> js_ge (coerce0 target) (Num 0))"
  shows "length (goals (createGoal gid nm target (Some fid) st)) = Suc (length (goals st)) \<and>
         last (goals (createGoal gid nm target (Some fid) st)) =
           \<lparr>goal_id = gid, goal_name = nm, targetAmount = coerce0 target,
            saved = Math_min (balance c) (coerce0 target)\<rparr> \<and>
         categories (createGoal gid nm target (Some fid) st) =
           map (\<lambda>cc. if cat_id cc = fid
                      then cc\<lparr>balance := js_minus (balance c) (Math_min (balance c) (coerce0 target))\<rparr>
                      else cc)
               (categories st)"
proof -
  from assms(3) have d: "distinct (map cat_id (categories st))"
    by (simp add: unique_ids_def)
  from assms(7) show ?thesis
  proof
    assume pos: "js_greater (balance c) (Num 0)"
    have "js_number (Math_min (balance c) (coerce0 target))"
      using state_balance_number [OF assms(1,4)] js_number_coerce0 [OF assms(2)]
      by (rule js_number_Math_min)
    then have "js_plus (Num 0) (Math_min (balance c) (coerce0 target))
                 = Math_min (balance c) (coerce0 target)"
      by (rule js_plus_0_left)
    then show ?thesis
      unfolding createGoal_transfer [OF d assms(4) assms(5) assms(6) pos] by simp
  next
    assume zero: "balance c = Num 0 \<and> js_ge (coerce0 target) (Num 0)"
    then have B: "balance c = Num 0" and t: "js_ge (coerce0 target) (Num 0)" by simp_all
    from B have no: "\<not> js_greater (balance c) (Num 0)" by simp
    from t have m: "Math_min (Num 0) (coerce0 target) = Num 0"
      by (cases "coerce0 target") (auto simp: js_ge_def)
    have same: "map (\<lambda>cc. if cat_id cc = fid then cc\<lparr>balance := Num 0\<rparr> else cc) (categories st)
                  = categories st"
    proof (rule map_idI)
      fix x assume x: "x \<in> set (categories st)"
      show "(if cat_id x = fid then x\<lparr>balance := Num 0\<rparr> else x) = x"
      proof (cases "cat_id x = fid")
        case True
        with same_id [OF d assms(4) x] assms(5) have "x = c" by simp
        with B show ?thesis by simp
      next
        case False
        then show ?thesis by simp
      qed
    qed
    have z: "js_minus (Num 0) (Num 0) = Num 0" by (simp add: js_minus_def)
    show ?thesis
      unfolding createGoal_unfunded [OF d assms(4) assms(5) no] B m z same
      by simp
  qed
qed

theorem createGoal_funding_witness:
  "js_state ex_funded \<and> js_number (Num 1000) \<and> unique_ids (categories ex_funded) \<and>
   saved (last (goals (createGoal ''g1'' ''Trip'' (Num 1000) (Some ''cat2'') ex_funded))) = Num 300 \<and>
   map balance (categories (createGoal ''g1'' ''Trip'' (Num 1000) (Some ''cat2'') ex_funded))
     = [Num 500, Num 0, Num 200]"
proof -
  let ?c = "\<lparr>cat_id = ''cat2'', cat_name = ''Savings'', percent = Num 30, balance = Num 300\<rparr>"
  have d: "is_double 1000" "is_double 50" "is_double 30" "is_double 20" "is_double 500"
      "is_double 300" "is_double 200"
    by code_simp+
  then have js: "js_state ex_funded" and t: "js_number (Num 1000)"
    by (simp_all add: js_state_def ex_funded_def)
  have u: "unique_ids (categories ex_funded)" by (simp add: ex_funded_def unique_ids_def)
  have c: "?c \<in> set (categories ex_funded)" by (simp add: ex_funded_def)
  have i: "cat_id ?c = ''cat2''" and n: "''cat2'' \<noteq> []" by simp_all
  have g: "js_greater (balance ?c) (Num 0) \<or>
           (balance ?c = Num 0 \<and> js_ge (coerce0 (Num 1000)) (Num 0))"
    by simp
  have m: "js_minus (Num 300) (Num 300) = Num 0" by (simp add: js_minus_def)
  from createGoal_funding [OF js t u c i n g, of "''g1''" "''Trip''"] js t u show ?thesis
    by (simp add: ex_funded_def m)
qed

text \<open>
  C10, as stated, fails in three ways. The subtraction is one of doubles: with a
  balance of 300 and a target of \<open>-2 ^ -60\<close> the balance stays 300, which is not
  greater than 300. The category is the first with the id: with the balances 0
  and 300 under one id nothing is transferred, although a category with the id
  has a balance above 0. An empty id is no id.
\<close>

theorem createGoal_negative_target_counterexample:
  "map balance (categories ex_funded) = [Num 500, Num 300, Num 200] \<and>
   saved (last (goals (createGoal ''g1'' ''Trip'' (Num (- (1 / 2 ^ 60))) (Some ''cat2'') ex_funded)))
     = Num (- (1 / 2 ^ 60)) \<and>
   map balance (categories (createGoal ''g1'' ''Trip'' (Num (- (1 / 2 ^ 60))) (Some ''cat2'') ex_funded))
     = [Num 500, Num 300, Num 200] \<and>
   \<not> js_greater (Num 300) (Num 300) \<and>
   map balance (categories ex_duplicate_ids) = [Num 0, Num 300] \<and>
   map cat_id (categories ex_duplicate_ids) = [''cat1'', ''cat1''] \<and>
   saved (last (goals (createGoal ''g1'' ''Trip'' (Num (- 5)) (Some ''cat1'') ex_duplicate_ids)))
     = Num 0 \<and>
   map balance (categories (createGoal ''g1'' ''Trip'' (Num (- 5)) (Some ''cat1'') ex_duplicate_ids))
     = [Num 0, Num 300] \<and>
   map balance (categories ex_empty_id) = [Num 300] \<and>
   map cat_id (categories ex_empty_id) = [''''] \<and>
   saved (last (goals (createGoal ''g1'' ''Trip'' (Num (- 5)) (Some '''') ex_empty_id))) = Num 0 \<and>
   map balance (categories (createGoal ''g1'' ''Trip'' (Num (- 5)) (Some '''') ex_empty_id)) = [Num 300]"
proof -
  have run:
    "saved (last (goals (createGoal ''g1'' ''Trip'' (Num (- (1 / 2 ^ 60))) (Some ''cat2'') ex_funded)))
       = Num (- (1 / 2 ^ 60))"
    "map balance (categories (createGoal ''g1'' ''Trip'' (Num (- (1 / 2 ^ 60))) (Some ''cat2'') ex_funded))
       = [Num 500, Num 300, Num 200]"
    "saved (last (goals (createGoal ''g1'' ''Trip'' (Num (- 5)) (Some ''cat1'') ex_duplicate_ids)))
       = Num 0"
    "map balance (categories (createGoal ''g1'' ''Trip'' (Num (- 5)) (Some ''cat1'') ex_duplicate_ids))
       = [Num 0, Num 300]"
    "saved (last (goals (createGoal ''g1'' ''Trip'' (Num (- 5)) (Some '''') ex_empty_id))) = Num 0"
    "map balance (categories (createGoal ''g1'' ''Trip'' (Num (- 5)) (Some '''') ex_empty_id)) = [Num 300]"
    by code_simp+
  show ?thesis
    unfolding run
    by (simp add: ex_funded_def ex_duplicate_ids_def ex_empty_id_def
          example_state_def example_categories_def)
qed

text \<open>
  C10, amended: in a state of JavaScript numbers with unique category ids that
  contains a category with the non-empty id \<open>fromCategoryId\<close> and a balance
  \<open>B > 0\<close>, a target that is a number \<open>t < 0\<close> makes \<open>createGoal\<close> append a
  goal with \<open>saved = t\<close> and set the balance of that category to the difference
  of doubles \<open>B - t\<close>, which is at least \<open>B\<close>.
\<close>

theorem createGoal_negative_target:
  assumes "js_state st" and "js_number target" and "unique_ids (categories st)"
    and "c \<in> set (categories st)" and "cat_id c = fid" and "fid \<noteq> []"
    and "js_greater (balance c) (Num 0)" and "js_greater (Num 0) target"
  shows "saved (last (goals (createGoal gid nm target (Some fid) st))) = target \<and>
         categories (createGoal gid nm target (Some fid) st) =
           map (\<lambda>cc. if cat_id cc = fid then cc\<lparr>balance := js_minus (balance c) target\<rparr> else cc)
               (categories st) \<and>
         js_ge (js_minus (balance c) target) (balance c)"
proof -
  from assms(3) have d: "distinct (map cat_id (categories st))"
    by (simp add: unique_ids_def)
  note bn = state_balance_number [OF assms(1,4)]
  from assms(8) have co: "coerce0 target = target" by (cases target) simp_all
  from assms(7,8) have mn: "Math_min (balance c) target = target"
    by (cases "balance c"; cases target) auto
  from assms(2) have z: "js_plus (Num 0) target = target" by (rule js_plus_0_left)
  have ge: "js_ge (js_minus (balance c) target) (balance c)"
  proof (cases "balance c")
    case (Num B)
    with assms(7) bn have B: "0 < B" "rnd B = B" by (simp_all add: is_double_def)
    show ?thesis
    proof (cases target)
      case (Num t)
      with assms(8) have "B \<le> B + - t" by simp
      from rnd_ge_double [OF B(2) B(1) this] have "B \<le> rnd (B + - t)" .
      with B(1) show ?thesis
        using \<open>balance c = Num B\<close> Num by (auto simp: js_minus_def js_round_def Let_def js_ge_def)
    next
      case NInf
      then show ?thesis using \<open>balance c = Num B\<close> by (simp add: js_minus_def js_ge_def)
    qed (use assms(8) in simp_all)
  next
    case PInf
    with assms(8) show ?thesis by (cases target) (simp_all add: js_minus_def js_ge_def)
  qed (use assms(7) in simp_all)
  show ?thesis
    unfolding createGoal_transfer [OF d assms(4) assms(5) assms(6) assms(7)] co mn z
    using ge by simp
qed

theorem createGoal_negative_target_witness:
  "js_state ex_funded \<and> js_number (Num (- 50)) \<and> unique_ids (categories ex_funded) \<and>
   saved (last (goals (createGoal ''g1'' ''Trip'' (Num (- 50)) (Some ''cat2'') ex_funded))) = Num (- 50) \<and>
   map balance (categories (createGoal ''g1'' ''Trip'' (Num (- 50)) (Some ''cat2'') ex_funded))
     = [Num 500, Num 350, Num 200] \<and>
   js_ge (Num 350) (Num 300)"
proof -
  let ?c = "\<lparr>cat_id = ''cat2'', cat_name = ''Savings'', percent = Num 30, balance = Num 300\<rparr>"
  have d: "is_double 1000" "is_double 50" "is_double 30" "is_double 20" "is_double 500"
      "is_double 300" "is_double 200" "is_double (- 50)"
    and m: "js_minus (Num 300) (Num (- 50)) = Num 350"
    by code_simp+
  then have js: "js_state ex_funded" and t: "js_number (Num (- 50))"
    by (simp_all add: js_state_def ex_funded_def)
  have u: "unique_ids (categories ex_funded)" by (simp add: ex_funded_def unique_ids_def)
  have c: "?c \<in> set (categories ex_funded)" by (simp add: ex_funded_def)
  have i: "cat_id ?c = ''cat2''" and n: "''cat2'' \<noteq> []"
    and p: "js_greater (balance ?c) (Num 0)" and neg: "js_greater (Num 0) (Num (- 50))"
    by simp_all
  from createGoal_negative_target [OF js t u c i n p neg, of "''g1''" "''Trip''"] js t u show ?thesis
    by (simp add: ex_funded_def m)
qed

subsection \<open>Snapshot\<close>










subsection \<open>Import of a document that does not parse\<close>

text \<open>
  A document that parses to \<open>null\<close> is reported like one that does not parse,
  and a document without the four properties changes nothing and reports nothing.
\<close>

lemma importData_null:
  assumes "JSON_parse contents = Some ParsedNull"
  shows "importData JSON_parse st contents = (st, Some ''Invalid file'')"
  using assms by (simp add: importData_def)

lemma importData_absent_fields:
  assumes "JSON_parse contents =
             Some (Parsed \<lparr>snap_income = None, snap_categories = None,
                            snap_transactions = None, snap_goals = None\<rparr>)"
  shows "importData JSON_parse st contents = (st, None)"
  using assms by (simp add: importData_def)

text \<open>
  C8: for every current state and every document on which \<open>JSON.parse\<close> throws,
  the import reports the failure (\<open>alert("Invalid file")\<close>) and leaves income,
  categories, transactions and goals as they were.
\<close>

theorem import_invalid_unchanged:
  assumes "JSON_parse contents = None"
  shows "importData JSON_parse st contents = (st, Some ''Invalid file'')"
  using assms by (simp add: importData_def)

theorem import_invalid_unchanged_witness:
  "ex_parse ''{ income: '' = None \<and>
   importData ex_parse ex_funded ''{ income: '' = (ex_funded, Some ''Invalid file'')"
proof -
  have h: "ex_parse ''{ income: '' = None" by (simp add: ex_parse_def)
  from import_invalid_unchanged
         [where JSON_parse = ex_parse and contents = "''{ income: ''" and st = ex_funded, OF h] h
  show ?thesis by blast
qed

end
